theory Spec2Isabelle
  imports Main "HOL-Library.Multiset"
begin

section \<open>Bytes, strings and panics\<close>

text \<open>
  A Go string is a sequence of bytes, and so is a \<^verbatim>\<open>[]byte\<close>: both are lists of
  \<^typ>\<open>char\<close> (an 8-bit character), and the conversions \<^verbatim>\<open>[]byte(s)\<close> and
  \<^verbatim>\<open>string(b)\<close> are the identity. Every fatal exit of the program is a Go panic
  (\<^verbatim>\<open>log.Panicf\<close>, \<^verbatim>\<open>log.Panic\<close> or a run-time error) that \<^verbatim>\<open>main\<close> recovers and
  logs; the embedding returns the panic's message as the left injection of a sum.
  Calls of \<^verbatim>\<open>log.Printf\<close> have no effect on any result and are left out.
\<close>

type_synonym byte = char
type_synonym panic = string
type_synonym oid = "byte list"

subsection \<open>Package \<^verbatim>\<open>encoding/hex\<close> of the Go standard library\<close>

datatype hex_error = InvalidByteError byte | ErrLength

definition fromHexChar :: "byte \<Rightarrow> nat option" where
  "fromHexChar c =
     (let n = (of_char c :: nat) in
      if 48 \<le> n \<and> n \<le> 57 then Some (n - 48)
      else if 97 \<le> n \<and> n \<le> 102 then Some (n - 97 + 10)
      else if 65 \<le> n \<and> n \<le> 70 then Some (n - 65 + 10)
      else None)"

text \<open>
  \<^verbatim>\<open>hex.DecodeString\<close>: two digits make one byte; the first character that is no
  hexadecimal digit is an \<^verbatim>\<open>InvalidByteError\<close>, an odd number of digits is
  \<^verbatim>\<open>ErrLength\<close>.
\<close>

fun hex_DecodeString :: "string \<Rightarrow> hex_error + byte list" where
  "hex_DecodeString [] = Inr []"
| "hex_DecodeString [p] =
     (case fromHexChar p of None \<Rightarrow> Inl (InvalidByteError p) | Some a \<Rightarrow> Inl ErrLength)"
| "hex_DecodeString (p # q # rest) =
     (case fromHexChar p of
        None \<Rightarrow> Inl (InvalidByteError p)
      | Some a \<Rightarrow>
          (case fromHexChar q of
             None \<Rightarrow> Inl (InvalidByteError q)
           | Some b \<Rightarrow>
               (case hex_DecodeString rest of
                  Inl e \<Rightarrow> Inl e
                | Inr bs \<Rightarrow> Inr (char_of (a * 16 + b) # bs))))"

definition hextable :: string where
  "hextable = ''0123456789abcdef''"

text \<open>\<^verbatim>\<open>Oid.String()\<close> is \<^verbatim>\<open>hex.EncodeToString\<close> of the identifier's bytes.\<close>

fun oid_String :: "oid \<Rightarrow> string" where
  "oid_String [] = []"
| "oid_String (v # vs) =
     hextable ! ((of_char v :: nat) div 16) # hextable ! ((of_char v :: nat) mod 16) # oid_String vs"

section \<open>Configuration\<close>

record config =
  ProjectName :: string
  ProjectRepoURL :: string
  DiffURLTemplate :: string
  CommitURLTemplate :: string
  CommitHashDigits :: int

text \<open>
  \<^verbatim>\<open>parseJSONConfig\<close>: opening the file and decoding the JSON are input and output; their
  outcome is the argument (the error of \<^verbatim>\<open>os.Open\<close>, or the error of the decoder, or
  the decoded structure). What the function itself does is the last step: every
  \<^verbatim>\<open>commit_hash_digits\<close> of zero or below becomes the special value \<open>-1\<close>.
\<close>

definition parseJSONConfig :: "string + (string + config) \<Rightarrow> panic + config" where
  "parseJSONConfig opened =
     (case opened of
        Inl err \<Rightarrow> Inl (''failed to read config file: '' @ err)
      | Inr decoded \<Rightarrow>
          (case decoded of
             Inl err \<Rightarrow> Inl (''failed to parse config file: '' @ err)
           | Inr c \<Rightarrow>
               Inr (if CommitHashDigits c \<le> 0 then c\<lparr>CommitHashDigits := - 1\<rparr> else c)))"

section \<open>Truncating an identifier\<close>

text \<open>
  \<^verbatim>\<open>truncateBytes\<close>. The slice expression \<^verbatim>\<open>b[0 : n-1]\<close> panics when its upper bound is
  negative or beyond the capacity; after the clamp the bound is below the length, so
  only the negative bound can fail.
\<close>

definition truncateBytes :: "byte list \<Rightarrow> int \<Rightarrow> panic + byte list" where
  "truncateBytes b n =
     (if n = - 1 then Inr b
      else
        let n' = (if int (length b) < n then int (length b) else n) in
        if n' - 1 < 0 \<or> int (length b) < n' - 1
        then Inl ''runtime error: slice bounds out of range''
        else Inr (take (nat (n' - 1)) b))"

section \<open>The repository, as the program sees it through git2go\<close>

record commit =
  Id :: oid
  Author_Name :: string
  Message :: string

datatype reference = ReferenceOid oid | ReferenceSymbolic string | ReferenceInvalid

datatype object = ObjectCommit commit | ObjectTree | ObjectBlob | ObjectTag

text \<open>
  The program reaches the object store only through calls of the libgit2 binding, whose
  code is not part of the program. Each call is a field of the record below: its result
  on the opened repository, with the library's error message on the left. The
  definitions of the program take the record as their \<^verbatim>\<open>repo\<close> argument, so that every
  theorem holds for every behaviour of the library, unless a hypothesis says otherwise.

  \<^item> \<open>NewOidFromBytes\<close>: \<^verbatim>\<open>git.NewOidFromBytes\<close>; \<open>Inr None\<close> is the nil result the
    program tests for, and the left injection a run-time panic inside the call (the
    binding slices its argument to twenty bytes).
  \<^item> \<open>LookupCommit\<close>, \<open>References_Lookup\<close>, \<open>DescendantOf\<close>: the calls of these names.
  \<^item> \<open>Peel\<close>: \<^verbatim>\<open>ref.Peel(git.ObjectCommit)\<close> on a reference.
  \<^item> \<open>Walk\<close>: the error of \<^verbatim>\<open>repo.Walk()\<close>, if any; \<open>Push\<close>: the error of
    \<^verbatim>\<open>revWalker.Push\<close>, if any.
  \<^item> \<open>Next\<close>: for a walker sorting topologically on which the given identifier was
    pushed, the identifiers that the successive calls of \<^verbatim>\<open>revWalker.Next\<close> deliver with
    a nil error, and the error of the call after them (the end of the iteration is
    an error of the binding, too).
  \<^item> \<open>ParentIds\<close>: the parent edges of the object store. The program never reads them;
    they state what the walker's order promises.
\<close>

record git =
  NewOidFromBytes :: "byte list \<Rightarrow> panic + oid option"
  LookupCommit :: "oid \<Rightarrow> string + commit"
  References_Lookup :: "string \<Rightarrow> string + reference"
  Peel :: "reference \<Rightarrow> string + object"
  DescendantOf :: "oid \<Rightarrow> oid \<Rightarrow> string + bool"
  Walk :: "string option"
  Push :: "oid \<Rightarrow> string option"
  Next :: "oid \<Rightarrow> oid list \<times> string"
  ParentIds :: "oid \<Rightarrow> oid list"

text \<open>\<^verbatim>\<open>object.AsCommit()\<close> of the binding succeeds exactly on an object of type commit.\<close>

fun AsCommit :: "object \<Rightarrow> string + commit" where
  "AsCommit (ObjectCommit c) = Inr c"
| "AsCommit _ = Inl ''object is not a commit''"

section \<open>Resolving an endpoint: \<^verbatim>\<open>getCommit\<close>\<close>

definition getCommit :: "git \<Rightarrow> string \<Rightarrow> string \<Rightarrow> panic + commit" where
  "getCommit repo refOrHash desc =
     (case hex_DecodeString refOrHash of
        Inr bytes \<Rightarrow>
          (case NewOidFromBytes repo bytes of
             Inl p \<Rightarrow> Inl p
           | Inr None \<Rightarrow>
               Inl (''getCommit: failed to create oid from '' @ desc @ ''='' @ refOrHash)
           | Inr (Some commitID) \<Rightarrow>
               (case LookupCommit repo commitID of
                  Inl err \<Rightarrow>
                    Inl (''getCommit: failed to get commit from '' @ desc @ ''='' @ refOrHash)
                | Inr commit \<Rightarrow> Inr commit))
      | Inl err \<Rightarrow>
          (case References_Lookup repo refOrHash of
             Inl err \<Rightarrow>
               Inl (''getCommit: failed to lookup reference '' @ desc @ ''='' @ refOrHash)
           | Inr ref \<Rightarrow>
               (case ref of
                  ReferenceOid targetOid \<Rightarrow>
                    (case LookupCommit repo targetOid of
                       Inl err \<Rightarrow>
                         Inl (''getCommit: '' @ desc @ ''='' @ refOrHash @ '': '' @ err)
                     | Inr commit \<Rightarrow> Inr commit)
                | ReferenceSymbolic targetRefString \<Rightarrow>
                    (case References_Lookup repo targetRefString of
                       Inl err \<Rightarrow>
                         Inl (''getCommit: failed to lookup ref '' @ targetRefString
                              @ '' for '' @ desc @ ''='' @ refOrHash)
                     | Inr targetRef \<Rightarrow>
                         (case Peel repo targetRef of
                            Inl err \<Rightarrow>
                              Inl (''getCommit: failed to get object '' @ targetRefString
                                   @ '' for '' @ desc @ ''='' @ refOrHash @ '': '' @ err)
                          | Inr obj \<Rightarrow>
                              (case AsCommit obj of
                                 Inl err \<Rightarrow>
                                   Inl (''getCommit: failed to get commit object ''
                                        @ targetRefString @ '' for '' @ desc @ ''=''
                                        @ refOrHash @ '': '' @ err)
                               | Inr commit \<Rightarrow> Inr commit)))
                | ReferenceInvalid \<Rightarrow> Inl ''getCommit: should be unreachable code'')))"

section \<open>Walking the range: \<^verbatim>\<open>getCommitChain\<close>\<close>

text \<open>
  The \<^verbatim>\<open>for\<close> loop over \<^verbatim>\<open>revWalker.Next\<close>. Its first argument is the start identifier,
  its second the identifiers the walker still has to deliver, its third the slice
  \<^verbatim>\<open>commits\<close>. The loop ends at \<^verbatim>\<open>break\<close>, or when \<^verbatim>\<open>Next\<close> returns an error; that error
  lives in the variable \<^verbatim>\<open>err\<close> that the \<^verbatim>\<open>for\<close> statement declares itself, which is gone
  after the loop.
\<close>

fun revwalk_loop :: "oid \<Rightarrow> oid list \<Rightarrow> oid list \<Rightarrow> oid list" where
  "revwalk_loop start [] commits = commits"
| "revwalk_loop start (curCommitID # rest) commits =
     (if curCommitID = start then commits
      else revwalk_loop start rest (commits @ [curCommitID]))"

text \<open>
  After the loop the function tests the \<^verbatim>\<open>err\<close> of its own scope, which
  \<^verbatim>\<open>revWalker.Push\<close> assigned last: the second \<open>case err\<close> below.
\<close>

definition getCommitChain :: "git \<Rightarrow> commit \<Rightarrow> commit \<Rightarrow> panic + oid list" where
  "getCommitChain repo end start =
     (case DescendantOf repo (Id end) (Id start) of
        Inl err \<Rightarrow>
          Inl (''failed to check if end commit is descendent of start commit: '' @ err)
      | Inr reachable \<Rightarrow>
          if \<not> reachable
          then Inl (''ERROR: end-commit '' @ oid_String (Id end)
                    @ '' not reachable from start commit '' @ oid_String (Id start))
          else
            (case Walk repo of
               Some err \<Rightarrow> Inl err
             | None \<Rightarrow>
                 (let err = Push repo (Id end) in
                  case err of
                    Some e \<Rightarrow> Inl e
                  | None \<Rightarrow>
                      (let commits = revwalk_loop (Id start) (fst (Next repo (Id end))) [] in
                       case err of
                         Some e \<Rightarrow> Inl (''rev-walk stopped due to error: '' @ e)
                       | None \<Rightarrow> Inr commits))))"

section \<open>The report: authors and table rows\<close>

text \<open>
  \<^verbatim>\<open>getAuthorListString\<close>. The map \<^verbatim>\<open>authors\<close> is a set of names: the list of its keys,
  without duplicates. The first loop inserts the author of every commit of the chain.
\<close>

fun collect_authors :: "git \<Rightarrow> oid list \<Rightarrow> string list \<Rightarrow> panic + string list" where
  "collect_authors repo [] authors = Inr authors"
| "collect_authors repo (commitID # rest) authors =
     (case LookupCommit repo commitID of
        Inl err \<Rightarrow> Inl err
      | Inr commit \<Rightarrow> collect_authors repo rest (List.insert (Author_Name commit) authors))"

text \<open>The second loop writes every name it visits, and a comma after each.\<close>

fun write_authors :: "string list \<Rightarrow> string \<Rightarrow> string" where
  "write_authors [] sb = sb"
| "write_authors (name # names) sb = write_authors names (sb @ name @ '','')"

text \<open>
  Go visits the keys of a map in an order it does not specify. The order is the
  argument \<open>visit\<close>: it maps the keys of the map to the sequence in which the loop
  visits them, a permutation of the keys.
\<close>

definition getAuthorListString ::
    "git \<Rightarrow> (string list \<Rightarrow> string list) \<Rightarrow> oid list \<Rightarrow> panic + string" where
  "getAuthorListString repo visit commitChain =
     (case collect_authors repo commitChain [] of
        Inl err \<Rightarrow> Inl err
      | Inr authors \<Rightarrow> Inr (write_authors (visit authors) []))"

text \<open>
  \<^verbatim>\<open>writeCommitChain\<close> builds one \<^verbatim>\<open>CommitInfo\<close> for each identifier of the chain. The
  embedding keeps the two fields that are computed without a template or a scanner:
  the identifier column and the author column.
\<close>

record CommitInfo =
  CommitID :: string
  CommitAuthor :: string

fun writeCommitChain :: "git \<Rightarrow> config \<Rightarrow> oid list \<Rightarrow> panic + CommitInfo list" where
  "writeCommitChain repo cfg [] = Inr []"
| "writeCommitChain repo cfg (commitID # rest) =
     (case LookupCommit repo commitID of
        Inl err \<Rightarrow> Inl err
      | Inr commit \<Rightarrow>
          (case truncateBytes (oid_String (Id commit)) (CommitHashDigits cfg) of
             Inl p \<Rightarrow> Inl p
           | Inr t \<Rightarrow>
               (case writeCommitChain repo cfg rest of
                  Inl p \<Rightarrow> Inl p
                | Inr rows \<Rightarrow>
                    Inr (\<lparr>CommitID = t, CommitAuthor = Author_Name commit\<rparr> # rows))))"

section \<open>What the specification and the library's documentation say\<close>

text \<open>
  The topological order of the revision walker, as libgit2 documents it and as the
  specification words it: no identifier is delivered twice, and a commit is delivered
  before every one of its parents that is delivered. The head of the list is delivered
  first: no later commit has it as a parent, and it is not its own parent.
\<close>

fun topological :: "(oid \<Rightarrow> oid list) \<Rightarrow> oid list \<Rightarrow> bool" where
  "topological parents [] = True"
| "topological parents (c # cs) =
     (c \<notin> set cs \<and> list_all (\<lambda>d. c \<notin> set (parents d)) (c # cs) \<and> topological parents cs)"

text \<open>
  A walk from a tip: the tip is delivered, and every other commit delivered is a parent
  of a delivered commit (it was reached over a parent edge).
\<close>

definition walk_from :: "(oid \<Rightarrow> oid list) \<Rightarrow> oid \<Rightarrow> oid list \<Rightarrow> bool" where
  "walk_from parents tip ws \<longleftrightarrow>
     topological parents ws \<and> tip \<in> set ws
     \<and> list_all (\<lambda>c. c = tip \<or> list_ex (\<lambda>d. c \<in> set (parents d)) ws) ws"

text \<open>
  The specification's reading of an endpoint as a hash: a valid hexadecimal identifier
  of the fixed length, forty digits for the twenty bytes of an identifier.
\<close>

definition spec_valid_hex_identifier :: "string \<Rightarrow> bool" where
  "spec_valid_hex_identifier s \<longleftrightarrow> length s = 40 \<and> list_all (\<lambda>c. fromHexChar c \<noteq> None) s"

text \<open>The specification's author list: the names joined with commas between them.\<close>

fun spec_comma_joined :: "string list \<Rightarrow> string" where
  "spec_comma_joined [] = []"
| "spec_comma_joined [name] = name"
| "spec_comma_joined (name # names) = name @ '','' @ spec_comma_joined names"

section \<open>An example repository\<close>

text \<open>
  A linear history \<open>start \<rightarrow> X \<rightarrow> Y \<rightarrow> end\<close> with the authors alice (\<open>end\<close>), bob (\<open>Y\<close>)
  and alice (\<open>X\<close>), the branches \<open>master\<close> at \<open>start\<close> and \<open>develop\<close> at \<open>end\<close>, and \<open>HEAD\<close>
  a symbolic reference to \<open>develop\<close>. Two more symbolic references do not lead to a
  commit: \<open>refs/remotes/origin/HEAD\<close> names a branch that does not exist, and \<open>LATEST\<close>
  names a tag of an object that is no commit and cannot be peeled to one.
\<close>

definition ex_start :: oid where
  "ex_start = [CHR 0xF5, CHR 0xA7, CHR 0x8E, CHR 0xBA, CHR 0x82, CHR 0x8B, CHR 0x90, CHR 0x5C,
               CHR 0xFB, CHR 0x55, CHR 0x9A, CHR 0x42, CHR 0x7E, CHR 0x1A, CHR 0xFC, CHR 0xCE,
               CHR 0xB5, CHR 0xD3, CHR 0x37, CHR 0xCA]"

definition ex_X :: oid where
  "ex_X = [CHR 0x11, CHR 0x11, CHR 0x11, CHR 0x11, CHR 0x11, CHR 0x11, CHR 0x11, CHR 0x11,
           CHR 0x11, CHR 0x11, CHR 0x11, CHR 0x11, CHR 0x11, CHR 0x11, CHR 0x11, CHR 0x11,
           CHR 0x11, CHR 0x11, CHR 0x11, CHR 0x11]"

definition ex_Y :: oid where
  "ex_Y = [CHR 0x22, CHR 0x22, CHR 0x22, CHR 0x22, CHR 0x22, CHR 0x22, CHR 0x22, CHR 0x22,
           CHR 0x22, CHR 0x22, CHR 0x22, CHR 0x22, CHR 0x22, CHR 0x22, CHR 0x22, CHR 0x22,
           CHR 0x22, CHR 0x22, CHR 0x22, CHR 0x22]"

definition ex_end :: oid where
  "ex_end = [CHR 0x9F, CHR 0xDA, CHR 0x7B, CHR 0x8C, CHR 0x7C, CHR 0x77, CHR 0xB0, CHR 0x3F,
             CHR 0x63, CHR 0x09, CHR 0x73, CHR 0xD4, CHR 0x37, CHR 0x3D, CHR 0x94, CHR 0x6A,
             CHR 0xDF, CHR 0xAA, CHR 0x76, CHR 0xF7]"

definition ex_blob :: oid where
  "ex_blob = [CHR 0x33, CHR 0x33, CHR 0x33, CHR 0x33, CHR 0x33, CHR 0x33, CHR 0x33, CHR 0x33,
              CHR 0x33, CHR 0x33, CHR 0x33, CHR 0x33, CHR 0x33, CHR 0x33, CHR 0x33, CHR 0x33,
              CHR 0x33, CHR 0x33, CHR 0x33, CHR 0x33]"

definition ex_commit :: "oid \<Rightarrow> string \<Rightarrow> commit" where
  "ex_commit i a = \<lparr>Id = i, Author_Name = a, Message = ''message''\<rparr>"

definition ex_lookup :: "oid \<Rightarrow> string + commit" where
  "ex_lookup i =
     (if i = ex_end then Inr (ex_commit ex_end ''alice'')
      else if i = ex_Y then Inr (ex_commit ex_Y ''bob'')
      else if i = ex_X then Inr (ex_commit ex_X ''alice'')
      else if i = ex_start then Inr (ex_commit ex_start ''carol'')
      else Inl ''object not found'')"

definition ex_refs :: "string \<Rightarrow> string + reference" where
  "ex_refs name =
     (if name = ''HEAD'' then Inr (ReferenceSymbolic ''refs/heads/develop'')
      else if name = ''refs/heads/develop'' then Inr (ReferenceOid ex_end)
      else if name = ''refs/heads/master'' then Inr (ReferenceOid ex_start)
      else if name = ''refs/remotes/origin/HEAD''
        then Inr (ReferenceSymbolic ''refs/remotes/origin/master'')
      else if name = ''LATEST'' then Inr (ReferenceSymbolic ''refs/tags/notes'')
      else if name = ''refs/tags/notes'' then Inr (ReferenceOid ex_blob)
      else Inl ''reference not found'')"

definition ex_parents :: "oid \<Rightarrow> oid list" where
  "ex_parents i =
     (if i = ex_end then [ex_Y] else if i = ex_Y then [ex_X]
      else if i = ex_X then [ex_start] else [])"

definition ex_repo :: git where
  "ex_repo =
     \<lparr>NewOidFromBytes =
        (\<lambda>b. if length b < 20 then Inl ''runtime error: slice bounds out of range''
              else Inr (Some (take 20 b))),
      LookupCommit = ex_lookup,
      References_Lookup = ex_refs,
      Peel =
        (\<lambda>r. case r of
                ReferenceOid i \<Rightarrow>
                  (case ex_lookup i of Inl e \<Rightarrow> Inl e | Inr c \<Rightarrow> Inr (ObjectCommit c))
              | _ \<Rightarrow> Inl ''reference cannot be peeled''),
      DescendantOf =
        (\<lambda>c a. Inr ((c, a) \<in> set [(ex_end, ex_Y), (ex_end, ex_X), (ex_end, ex_start),
                                    (ex_Y, ex_X), (ex_Y, ex_start), (ex_X, ex_start)])),
      Walk = None,
      Push = (\<lambda>i. None),
      Next =
        (\<lambda>i. if i = ex_end then ([ex_end, ex_Y, ex_X, ex_start], ''iteration over'')
              else if i = ex_Y then ([ex_Y, ex_X, ex_start], ''iteration over'')
              else if i = ex_X then ([ex_X, ex_start], ''iteration over'')
              else if i = ex_start then ([ex_start], ''iteration over'')
              else ([], ''iteration over'')),
      ParentIds = ex_parents\<rparr>"

definition ex_config :: "int \<Rightarrow> config" where
  "ex_config d =
     \<lparr>ProjectName = ''changelog'', ProjectRepoURL = ''https://example.org/changelog'',
      DiffURLTemplate = ''https://example.org/compare/{{.StartCommitID}}...{{.EndCommitID}}'',
      CommitURLTemplate = ''https://example.org/commit/{{.CommitID}}'',
      CommitHashDigits = d\<rparr>"

section \<open>Truncation\<close>

lemma truncateBytes_positive:
  assumes "0 < k" and "k \<le> int (length b)"
  shows "truncateBytes b k = Inr (take (nat k - 1) b)"
  using assms by (simp add: truncateBytes_def Let_def nat_diff_distrib')

text \<open>
  C1. With the width 8 the identifier should be cut to its first eight characters. The
  function cuts it to the first seven: the upper bound of its slice is one too small.
\<close>

theorem truncateBytes_width_8_keeps_7:
  "truncateBytes ''f5a78eba828b905cfb559a427e1afcceb5d337ca'' 8 = Inr ''f5a78eb''"
  by (simp add: truncateBytes_def)

lemma parseJSONConfig_sentinel:
  "CommitHashDigits c \<le> 0 \<Longrightarrow>
     parseJSONConfig (Inr (Inr c)) = Inr (c\<lparr>CommitHashDigits := - 1\<rparr>)"
  by (simp add: parseJSONConfig_def)

lemma writeCommitChain_sentinel:
  assumes "CommitHashDigits cfg = - 1"
    and "list_all2 (\<lambda>i k. LookupCommit repo i = Inr k) chain commits"
  shows "writeCommitChain repo cfg chain =
         Inr (map (\<lambda>k. \<lparr>CommitID = oid_String (Id k), CommitAuthor = Author_Name k\<rparr>) commits)"
  using assms(2,1)
  by (induction chain commits rule: list_all2_induct) (simp_all add: truncateBytes_def)

text \<open>
  C8. When the configured \<^verbatim>\<open>commit_hash_digits\<close> is zero or below, the configuration is
  read with the special width, with which \<^verbatim>\<open>truncateBytes\<close> returns every byte string
  unchanged, and the rows of the table carry the full identifier of every commit of the
  chain (whenever every identifier of the chain is found in the store).
\<close>

theorem no_truncation_keeps_identifier:
  assumes "CommitHashDigits c \<le> 0"
    and "list_all2 (\<lambda>i k. LookupCommit repo i = Inr k) chain commits"
  shows "\<exists>cfg. parseJSONConfig (Inr (Inr c)) = Inr cfg
           \<and> truncateBytes b (CommitHashDigits cfg) = Inr b
           \<and> writeCommitChain repo cfg chain =
               Inr (map (\<lambda>k. \<lparr>CommitID = oid_String (Id k), CommitAuthor = Author_Name k\<rparr>)
                      commits)"
proof -
  let ?cfg = "c\<lparr>CommitHashDigits := - 1\<rparr>"
  have p: "parseJSONConfig (Inr (Inr c)) = Inr ?cfg"
    using assms(1) by (rule parseJSONConfig_sentinel)
  have t: "truncateBytes b (CommitHashDigits ?cfg) = Inr b"
    by (simp add: truncateBytes_def)
  have w: "writeCommitChain repo ?cfg chain =
      Inr (map (\<lambda>k. \<lparr>CommitID = oid_String (Id k), CommitAuthor = Author_Name k\<rparr>) commits)"
    by (rule writeCommitChain_sentinel) (simp, rule assms(2))
  from p t w show ?thesis by blast
qed

lemma ex_lookups:
  "list_all2 (\<lambda>i k. LookupCommit ex_repo i = Inr k) [ex_end, ex_Y]
     [ex_commit ex_end ''alice'', ex_commit ex_Y ''bob'']"
  by (simp add: ex_repo_def ex_lookup_def ex_end_def ex_Y_def)

lemma oid_String_ex_end: "oid_String ex_end = ''9fda7b8c7c77b03f630973d4373d946adfaa76f7''"
  by (simp add: ex_end_def hextable_def)

lemma oid_String_ex_Y: "oid_String ex_Y = ''2222222222222222222222222222222222222222''"
  by (simp add: ex_Y_def hextable_def)

theorem no_truncation_keeps_identifier_witness:
  "CommitHashDigits (ex_config 0) \<le> 0
   \<and> list_all2 (\<lambda>i k. LookupCommit ex_repo i = Inr k) [ex_end, ex_Y]
        [ex_commit ex_end ''alice'', ex_commit ex_Y ''bob'']
   \<and> (\<exists>cfg. parseJSONConfig (Inr (Inr (ex_config 0))) = Inr cfg
         \<and> truncateBytes ''9fda7b8c7c77b03f630973d4373d946adfaa76f7'' (CommitHashDigits cfg)
             = Inr ''9fda7b8c7c77b03f630973d4373d946adfaa76f7''
         \<and> writeCommitChain ex_repo cfg [ex_end, ex_Y] =
             Inr [\<lparr>CommitID = ''9fda7b8c7c77b03f630973d4373d946adfaa76f7'',
                   CommitAuthor = ''alice''\<rparr>,
                  \<lparr>CommitID = ''2222222222222222222222222222222222222222'',
                   CommitAuthor = ''bob''\<rparr>])"
proof -
  have h: "CommitHashDigits (ex_config 0) \<le> 0" by (simp add: ex_config_def)
  show ?thesis
    using no_truncation_keeps_identifier [OF h ex_lookups,
        of "''9fda7b8c7c77b03f630973d4373d946adfaa76f7''"] h ex_lookups
    by (simp add: ex_commit_def oid_String_ex_end oid_String_ex_Y)
qed

section \<open>The chain of commits\<close>

lemma revwalk_loop_takeWhile:
  "revwalk_loop start ws commits = commits @ takeWhile (\<lambda>c. c \<noteq> start) ws"
  by (induction ws arbitrary: commits) simp_all

lemma getCommitChain_walks:
  assumes "DescendantOf repo (Id end) (Id start) = Inr True"
    and "Walk repo = None" and "Push repo (Id end) = None"
  shows "getCommitChain repo end start =
         Inr (takeWhile (\<lambda>c. c \<noteq> Id start) (fst (Next repo (Id end))))"
  using assms by (simp add: getCommitChain_def revwalk_loop_takeWhile)

lemma getCommitChain_Inr_prefix:
  assumes "getCommitChain repo end start = Inr chain"
  shows "chain = takeWhile (\<lambda>c. c \<noteq> Id start) (fst (Next repo (Id end)))"
  using assms
  by (auto simp: getCommitChain_def revwalk_loop_takeWhile Let_def
           split: sum.splits if_splits option.splits)

lemma topological_distinct: "topological parents ws \<Longrightarrow> distinct ws"
  by (induction ws) simp_all

lemma topological_append: "topological parents (xs @ ys) \<Longrightarrow> topological parents xs"
  by (induction xs) (simp_all add: list_all_iff)

lemma topological_takeWhile:
  assumes "topological parents ws"
  shows "topological parents (takeWhile P ws)"
proof -
  have "topological parents (takeWhile P ws @ dropWhile P ws)"
    using assms by simp
  then show ?thesis by (rule topological_append)
qed

lemma topological_nth:
  "topological parents ws \<Longrightarrow> i < length ws \<Longrightarrow> j < length ws \<Longrightarrow>
   ws ! j \<in> set (parents (ws ! i)) \<Longrightarrow> i < j"
proof (induction ws arbitrary: i j)
  case Nil
  then show ?case by simp
next
  case (Cons c cs)
  have none: "\<forall>d\<in>set (c # cs). c \<notin> set (parents d)"
    using Cons.prems(1) by (simp add: list_all_iff)
  show ?case
  proof (cases j)
    case 0
    have "(c # cs) ! i \<in> set (c # cs)"
      using Cons.prems(2) by (rule nth_mem)
    with none have "c \<notin> set (parents ((c # cs) ! i))" by blast
    with Cons.prems(4) 0 show ?thesis by simp
  next
    case (Suc j')
    show ?thesis
    proof (cases i)
      case 0
      with Suc show ?thesis by simp
    next
      case (Suc i')
      have "i' < j'"
      proof (rule Cons.IH)
        show "topological parents cs" using Cons.prems(1) by simp
        show "i' < length cs" using Cons.prems(2) Suc by simp
        show "j' < length cs" using Cons.prems(3) \<open>j = Suc j'\<close> by simp
        show "cs ! j' \<in> set (parents (cs ! i'))"
          using Cons.prems(4) Suc \<open>j = Suc j'\<close> by simp
      qed
      with Suc \<open>j = Suc j'\<close> show ?thesis by simp
    qed
  qed
qed

lemma walk_from_hd:
  assumes "walk_from parents tip ws"
  shows "\<exists>cs. ws = tip # cs"
proof (cases ws)
  case Nil
  with assms show ?thesis by (simp add: walk_from_def)
next
  case (Cons c cs)
  have topo: "topological parents ws"
    and reached: "list_all (\<lambda>x. x = tip \<or> list_ex (\<lambda>d. x \<in> set (parents d)) ws) ws"
    using assms by (simp_all add: walk_from_def)
  have "list_all (\<lambda>d. c \<notin> set (parents d)) ws"
    using topo unfolding Cons by simp
  then have none: "\<forall>d\<in>set ws. c \<notin> set (parents d)"
    unfolding list_all_iff .
  have "c \<in> set ws" unfolding Cons by simp
  with reached have "c = tip \<or> list_ex (\<lambda>d. c \<in> set (parents d)) ws"
    unfolding list_all_iff by blast
  then have "c = tip \<or> (\<exists>d\<in>set ws. c \<in> set (parents d))"
    unfolding list_ex_iff .
  with none have "c = tip" by blast
  with Cons show ?thesis by simp
qed

text \<open>
  C2, as the program has it. Between two different commits for which the ancestry check
  answers yes (the walker being created, accepting the end commit and delivering a
  topological walk from it), \<^verbatim>\<open>getCommitChain\<close> returns a chain that never holds the
  identifier of \<open>start\<close> and that holds the identifier of \<open>end\<close>. When the two commits
  are the same one and the ancestry check answers no for it, as the library's check
  does for every commit against itself, \<^verbatim>\<open>getCommitChain\<close> returns no chain: it panics
  with the message of the unreachable start.
\<close>

theorem chain_excludes_start_includes_end:
  assumes "Walk repo = None" and "Push repo (Id end) = None"
    and "walk_from (ParentIds repo) (Id end) (fst (Next repo (Id end)))"
  shows "(Id end \<noteq> Id start \<longrightarrow> DescendantOf repo (Id end) (Id start) = Inr True \<longrightarrow>
            (\<exists>chain. getCommitChain repo end start = Inr chain
               \<and> Id start \<notin> set chain \<and> Id end \<in> set chain))
       \<and> (Id end = Id start \<longrightarrow> DescendantOf repo (Id end) (Id start) = Inr False \<longrightarrow>
            getCommitChain repo end start =
              Inl (''ERROR: end-commit '' @ oid_String (Id end)
                   @ '' not reachable from start commit '' @ oid_String (Id start)))"
proof (intro conjI impI)
  assume diff: "Id end \<noteq> Id start"
    and yes: "DescendantOf repo (Id end) (Id start) = Inr True"
  let ?chain = "takeWhile (\<lambda>c. c \<noteq> Id start) (fst (Next repo (Id end)))"
  have run: "getCommitChain repo end start = Inr ?chain"
    using yes assms(1,2) by (rule getCommitChain_walks)
  have no_start: "Id start \<notin> set ?chain"
    by (auto dest: set_takeWhileD)
  obtain cs where ws: "fst (Next repo (Id end)) = Id end # cs"
    using walk_from_hd [OF assms(3)] by blast
  have has_end: "Id end \<in> set ?chain"
    using diff by (simp add: ws)
  from run no_start has_end
  show "\<exists>chain. getCommitChain repo end start = Inr chain
          \<and> Id start \<notin> set chain \<and> Id end \<in> set chain"
    by blast
next
  assume "Id end = Id start" and "DescendantOf repo (Id end) (Id start) = Inr False"
  then show "getCommitChain repo end start =
      Inl (''ERROR: end-commit '' @ oid_String (Id end)
           @ '' not reachable from start commit '' @ oid_String (Id start))"
    by (simp add: getCommitChain_def)
qed

text \<open>
  C5. When the ancestry check answers no, \<^verbatim>\<open>getCommitChain\<close> panics with a message
  that names the identifiers of both endpoints, and returns no chain.
\<close>

theorem unreachable_start_panics:
  assumes "DescendantOf repo (Id end) (Id start) = Inr False"
  shows "getCommitChain repo end start =
         Inl (''ERROR: end-commit '' @ oid_String (Id end)
              @ '' not reachable from start commit '' @ oid_String (Id start))"
  using assms by (simp add: getCommitChain_def)

text \<open>
  C6. Every chain that \<^verbatim>\<open>getCommitChain\<close> returns is a prefix of what the walker
  delivers; when the walker's order is topological, the chain has no identifier twice
  and every commit of the chain stands before each of its parents in the chain.
\<close>

theorem chain_distinct_topological:
  assumes "getCommitChain repo end start = Inr chain"
    and "topological (ParentIds repo) (fst (Next repo (Id end)))"
  shows "distinct chain
         \<and> (\<forall>i<length chain. \<forall>j<length chain.
               chain ! j \<in> set (ParentIds repo (chain ! i)) \<longrightarrow> i < j)"
proof -
  have "chain = takeWhile (\<lambda>c. c \<noteq> Id start) (fst (Next repo (Id end)))"
    using assms(1) by (rule getCommitChain_Inr_prefix)
  with assms(2) have t: "topological (ParentIds repo) chain"
    by (simp add: topological_takeWhile)
  then have "distinct chain" by (rule topological_distinct)
  moreover have "\<forall>i<length chain. \<forall>j<length chain.
      chain ! j \<in> set (ParentIds repo (chain ! i)) \<longrightarrow> i < j"
    using topological_nth [OF t] by blast
  ultimately show ?thesis by blast
qed

lemma getCommitChain_exhausted:
  assumes "DescendantOf repo (Id end) (Id start) = Inr True"
    and "Walk repo = None" and "Push repo (Id end) = None"
    and "Id start \<notin> set (fst (Next repo (Id end)))"
  shows "getCommitChain repo end start = Inr (fst (Next repo (Id end)))"
proof -
  have "takeWhile (\<lambda>c. c \<noteq> Id start) (fst (Next repo (Id end))) = fst (Next repo (Id end))"
    using assms(4) by (auto intro: takeWhile_eq_all_conv [THEN iffD2])
  with getCommitChain_walks [OF assms(1-3)] show ?thesis by simp
qed

lemma ex_distinct:
  "ex_end \<noteq> ex_Y" "ex_end \<noteq> ex_X" "ex_end \<noteq> ex_start"
  "ex_Y \<noteq> ex_X" "ex_Y \<noteq> ex_start" "ex_X \<noteq> ex_start"
  by (simp_all add: ex_end_def ex_Y_def ex_X_def ex_start_def)

text \<open>
  C4. A walker that delivers \<open>end\<close> and \<open>Y\<close> and then reports the end of the iteration
  never meets \<open>start\<close>. \<^verbatim>\<open>getCommitChain\<close> returns the two identifiers as the chain:
  the error of \<^verbatim>\<open>Next\<close> is lost with the loop's own variable, and the test after the
  loop reads the error of \<^verbatim>\<open>Push\<close>, which is nil.
\<close>

theorem exhausted_walk_returns_partial_chain:
  "getCommitChain (ex_repo\<lparr>Next := \<lambda>i. ([ex_end, ex_Y], ''iteration over'')\<rparr>)
     (ex_commit ex_end ''alice'') (ex_commit ex_start ''carol'') = Inr [ex_end, ex_Y]"
  using ex_distinct ex_distinct [symmetric]
  by (simp add: getCommitChain_def ex_repo_def ex_commit_def)

lemma oid_String_ex_start: "oid_String ex_start = ''f5a78eba828b905cfb559a427e1afcceb5d337ca''"
  by (simp add: ex_start_def hextable_def)

lemma ex_walk_topological:
  "topological (ParentIds ex_repo) (fst (Next ex_repo (Id (ex_commit ex_end ''alice''))))"
  using ex_distinct ex_distinct [symmetric]
  by (simp add: ex_repo_def ex_commit_def ex_parents_def)

lemma ex_walk_from:
  "walk_from (ParentIds ex_repo) (Id (ex_commit ex_end ''alice''))
     (fst (Next ex_repo (Id (ex_commit ex_end ''alice''))))"
  using ex_distinct ex_distinct [symmetric]
  by (simp add: walk_from_def ex_repo_def ex_commit_def ex_parents_def)

lemma ex_descendant:
  "DescendantOf ex_repo (Id (ex_commit ex_end ''alice'')) (Id (ex_commit ex_start ''carol''))
     = Inr True"
  by (simp add: ex_repo_def ex_commit_def)

lemma ex_chain:
  "getCommitChain ex_repo (ex_commit ex_end ''alice'') (ex_commit ex_start ''carol'')
     = Inr [ex_end, ex_Y, ex_X]"
  using ex_distinct ex_distinct [symmetric]
  by (simp add: getCommitChain_def ex_repo_def ex_commit_def)

text \<open>
  C2, as the specification has it, fails. The start commit of the example is its own
  ancestor in the specification's reading, so the claim has the walk from it to itself
  return the empty chain. The ancestry check answers no for it, and \<^verbatim>\<open>getCommitChain\<close>
  panics.
\<close>

theorem equal_endpoints_panic_counterexample:
  "DescendantOf ex_repo (Id (ex_commit ex_start ''carol'')) (Id (ex_commit ex_start ''carol''))
     = Inr False
   \<and> getCommitChain ex_repo (ex_commit ex_start ''carol'') (ex_commit ex_start ''carol'') =
       Inl ''ERROR: end-commit f5a78eba828b905cfb559a427e1afcceb5d337ca not reachable from start commit f5a78eba828b905cfb559a427e1afcceb5d337ca''
   \<and> getCommitChain ex_repo (ex_commit ex_start ''carol'') (ex_commit ex_start ''carol'')
       \<noteq> Inr []"
proof -
  have no: "DescendantOf ex_repo (Id (ex_commit ex_start ''carol''))
      (Id (ex_commit ex_start ''carol'')) = Inr False"
    using ex_distinct ex_distinct [symmetric] by (simp add: ex_repo_def ex_commit_def)
  have run: "getCommitChain ex_repo (ex_commit ex_start ''carol'') (ex_commit ex_start ''carol'') =
       Inl ''ERROR: end-commit f5a78eba828b905cfb559a427e1afcceb5d337ca not reachable from start commit f5a78eba828b905cfb559a427e1afcceb5d337ca''"
    using no by (simp add: getCommitChain_def ex_commit_def oid_String_ex_start)
  from no run show ?thesis by simp
qed

lemma ex_walk_from_start:
  "walk_from (ParentIds ex_repo) (Id (ex_commit ex_start ''carol''))
     (fst (Next ex_repo (Id (ex_commit ex_start ''carol''))))"
  using ex_distinct ex_distinct [symmetric]
  by (simp add: walk_from_def ex_repo_def ex_commit_def ex_parents_def)

theorem chain_excludes_start_includes_end_witness:
  "Walk ex_repo = None
   \<and> Push ex_repo (Id (ex_commit ex_end ''alice'')) = None
   \<and> walk_from (ParentIds ex_repo) (Id (ex_commit ex_end ''alice''))
        (fst (Next ex_repo (Id (ex_commit ex_end ''alice''))))
   \<and> Id (ex_commit ex_end ''alice'') \<noteq> Id (ex_commit ex_start ''carol'')
   \<and> DescendantOf ex_repo (Id (ex_commit ex_end ''alice'')) (Id (ex_commit ex_start ''carol''))
        = Inr True
   \<and> (\<exists>chain. getCommitChain ex_repo (ex_commit ex_end ''alice'') (ex_commit ex_start ''carol'')
                = Inr chain
         \<and> Id (ex_commit ex_start ''carol'') \<notin> set chain
         \<and> Id (ex_commit ex_end ''alice'') \<in> set chain)
   \<and> Push ex_repo (Id (ex_commit ex_start ''carol'')) = None
   \<and> walk_from (ParentIds ex_repo) (Id (ex_commit ex_start ''carol''))
        (fst (Next ex_repo (Id (ex_commit ex_start ''carol''))))
   \<and> DescendantOf ex_repo (Id (ex_commit ex_start ''carol'')) (Id (ex_commit ex_start ''carol''))
        = Inr False
   \<and> getCommitChain ex_repo (ex_commit ex_start ''carol'') (ex_commit ex_start ''carol'') =
       Inl (''ERROR: end-commit '' @ oid_String (Id (ex_commit ex_start ''carol''))
            @ '' not reachable from start commit ''
            @ oid_String (Id (ex_commit ex_start ''carol'')))"
proof -
  have w: "Walk ex_repo = None" by (simp add: ex_repo_def)
  have p: "Push ex_repo (Id (ex_commit ex_end ''alice'')) = None" by (simp add: ex_repo_def)
  have p': "Push ex_repo (Id (ex_commit ex_start ''carol'')) = None" by (simp add: ex_repo_def)
  have diff: "Id (ex_commit ex_end ''alice'') \<noteq> Id (ex_commit ex_start ''carol'')"
    using ex_distinct by (simp add: ex_commit_def)
  have no: "DescendantOf ex_repo (Id (ex_commit ex_start ''carol''))
      (Id (ex_commit ex_start ''carol'')) = Inr False"
    using ex_distinct ex_distinct [symmetric] by (simp add: ex_repo_def ex_commit_def)
  note between = chain_excludes_start_includes_end [OF w p ex_walk_from,
      where start = "ex_commit ex_start ''carol''"]
  note same = chain_excludes_start_includes_end [OF w p' ex_walk_from_start,
      where start = "ex_commit ex_start ''carol''"]
  from between diff ex_descendant
  have 1: "\<exists>chain. getCommitChain ex_repo (ex_commit ex_end ''alice'') (ex_commit ex_start ''carol'')
                = Inr chain
         \<and> Id (ex_commit ex_start ''carol'') \<notin> set chain
         \<and> Id (ex_commit ex_end ''alice'') \<in> set chain"
    by blast
  from same no
  have 2: "getCommitChain ex_repo (ex_commit ex_start ''carol'') (ex_commit ex_start ''carol'') =
       Inl (''ERROR: end-commit '' @ oid_String (Id (ex_commit ex_start ''carol''))
            @ '' not reachable from start commit ''
            @ oid_String (Id (ex_commit ex_start ''carol'')))"
    by blast
  from w p ex_walk_from diff ex_descendant 1 p' ex_walk_from_start no 2 show ?thesis
    by (intro conjI)
qed

theorem unreachable_start_panics_witness:
  "DescendantOf ex_repo (Id (ex_commit ex_start ''carol'')) (Id (ex_commit ex_end ''alice''))
     = Inr False
   \<and> getCommitChain ex_repo (ex_commit ex_start ''carol'') (ex_commit ex_end ''alice'') =
       Inl ''ERROR: end-commit f5a78eba828b905cfb559a427e1afcceb5d337ca not reachable from start commit 9fda7b8c7c77b03f630973d4373d946adfaa76f7''"
proof -
  have h: "DescendantOf ex_repo (Id (ex_commit ex_start ''carol'')) (Id (ex_commit ex_end ''alice''))
     = Inr False"
    using ex_distinct ex_distinct [symmetric] by (simp add: ex_repo_def ex_commit_def)
  show ?thesis
    using unreachable_start_panics [OF h] h
    by (simp add: ex_commit_def oid_String_ex_start oid_String_ex_end)
qed

theorem chain_distinct_topological_witness:
  "getCommitChain ex_repo (ex_commit ex_end ''alice'') (ex_commit ex_start ''carol'')
     = Inr [ex_end, ex_Y, ex_X]
   \<and> topological (ParentIds ex_repo) (fst (Next ex_repo (Id (ex_commit ex_end ''alice''))))
   \<and> distinct [ex_end, ex_Y, ex_X]
   \<and> \<not> (\<exists>i<length [ex_end, ex_Y, ex_X]. \<exists>j<length [ex_end, ex_Y, ex_X].
           [ex_end, ex_Y, ex_X] ! j \<in> set (ParentIds ex_repo ([ex_end, ex_Y, ex_X] ! i))
           \<and> j \<le> i)"
proof -
  have "distinct [ex_end, ex_Y, ex_X]
     \<and> (\<forall>i<length [ex_end, ex_Y, ex_X]. \<forall>j<length [ex_end, ex_Y, ex_X].
          [ex_end, ex_Y, ex_X] ! j \<in> set (ParentIds ex_repo ([ex_end, ex_Y, ex_X] ! i))
          \<longrightarrow> i < j)"
    using ex_chain ex_walk_topological by (rule chain_distinct_topological)
  then show ?thesis
    using ex_chain ex_walk_topological by (meson not_le)
qed

section \<open>Resolving endpoints\<close>

lemma hex_DecodeString_Inr_iff:
  "(\<exists>b. hex_DecodeString s = Inr b) \<longleftrightarrow>
     even (length s) \<and> list_all (\<lambda>c. fromHexChar c \<noteq> None) s"
proof (induction s rule: hex_DecodeString.induct)
  case 1
  then show ?case by simp
next
  case (2 p)
  then show ?case by (simp split: option.splits)
next
  case (3 p q rest)
  show ?case
  proof (cases "fromHexChar p")
    case None
    then show ?thesis by simp
  next
    case p: (Some a)
    show ?thesis
    proof (cases "fromHexChar q")
      case None
      with p show ?thesis by simp
    next
      case q: (Some b)
      have ih: "(\<exists>bs. hex_DecodeString rest = Inr bs) \<longleftrightarrow>
          even (length rest) \<and> list_all (\<lambda>c. fromHexChar c \<noteq> None) rest"
        using p q by (rule "3.IH")
      have "(\<exists>bs. hex_DecodeString (p # q # rest) = Inr bs) \<longleftrightarrow>
          (\<exists>bs. hex_DecodeString rest = Inr bs)"
        using p q by (cases "hex_DecodeString rest") simp_all
      with ih p q show ?thesis by simp
    qed
  qed
qed

lemma hex_DecodeString_length:
  "hex_DecodeString s = Inr b \<Longrightarrow> 2 * length b = length s"
  by (induction s arbitrary: b rule: hex_DecodeString.induct)
     (auto split: option.splits sum.splits)

lemma getCommit_hex_ignores_references:
  assumes "hex_DecodeString s = Inr b"
  shows "getCommit (repo\<lparr>References_Lookup := refs\<rparr>) s desc = getCommit repo s desc"
  using assms by (simp add: getCommit_def split: sum.splits option.splits)

text \<open>
  C9, as the program has it. The test of \<^verbatim>\<open>getCommit\<close> is whether the endpoint decodes
  as hexadecimal: an even number of hexadecimal digits, of any length. Such an endpoint
  is looked up as a commit, under the identifier that the binding makes of the decoded
  bytes, and the references are never consulted: the commit found is returned, and the
  function panics when none is found. A valid identifier of forty digits is such an
  endpoint and decodes to twenty bytes. An endpoint that does not decode is looked up
  as a reference name, and the function panics when there is no such reference.
\<close>

theorem getCommit_hex_or_reference:
  "(hex_DecodeString s = Inr b \<longrightarrow>
      even (length s) \<and> list_all (\<lambda>c. fromHexChar c \<noteq> None) s \<and> 2 * length b = length s
      \<and> getCommit (repo\<lparr>References_Lookup := refs\<rparr>) s desc = getCommit repo s desc
      \<and> (NewOidFromBytes repo b = Inr (Some i) \<longrightarrow> LookupCommit repo i = Inr c \<longrightarrow>
           getCommit repo s desc = Inr c))
   \<and> (hex_DecodeString s' = Inr b' \<longrightarrow> NewOidFromBytes repo b' = Inr (Some i') \<longrightarrow>
        LookupCommit repo i' = Inl e \<longrightarrow>
        getCommit repo s' desc =
          Inl (''getCommit: failed to get commit from '' @ desc @ ''='' @ s'))
   \<and> (spec_valid_hex_identifier h \<longrightarrow> (\<exists>b. hex_DecodeString h = Inr b \<and> length b = 20))
   \<and> (hex_DecodeString r = Inl he \<longrightarrow>
        \<not> (even (length r) \<and> list_all (\<lambda>c. fromHexChar c \<noteq> None) r)
        \<and> (References_Lookup repo r = Inl e' \<longrightarrow>
             getCommit repo r desc =
               Inl (''getCommit: failed to lookup reference '' @ desc @ ''='' @ r)))"
proof (intro conjI impI)
  assume d: "hex_DecodeString s = Inr b"
  then have "\<exists>b. hex_DecodeString s = Inr b" by blast
  then have ok: "even (length s) \<and> list_all (\<lambda>c. fromHexChar c \<noteq> None) s"
    by (simp only: hex_DecodeString_Inr_iff)
  from ok show "even (length s)" by blast
  from ok show "list_all (\<lambda>c. fromHexChar c \<noteq> None) s" by blast
  from d show "2 * length b = length s" by (rule hex_DecodeString_length)
  from d show "getCommit (repo\<lparr>References_Lookup := refs\<rparr>) s desc = getCommit repo s desc"
    by (rule getCommit_hex_ignores_references)
  assume "NewOidFromBytes repo b = Inr (Some i)" and "LookupCommit repo i = Inr c"
  with d show "getCommit repo s desc = Inr c" by (simp add: getCommit_def)
next
  assume "hex_DecodeString s' = Inr b'" and "NewOidFromBytes repo b' = Inr (Some i')"
    and "LookupCommit repo i' = Inl e"
  then show "getCommit repo s' desc =
      Inl (''getCommit: failed to get commit from '' @ desc @ ''='' @ s')"
    by (simp add: getCommit_def)
next
  assume v: "spec_valid_hex_identifier h"
  then have "even (length h) \<and> list_all (\<lambda>c. fromHexChar c \<noteq> None) h"
    by (simp add: spec_valid_hex_identifier_def)
  then obtain b where b: "hex_DecodeString h = Inr b"
    by (simp only: hex_DecodeString_Inr_iff [symmetric]) blast
  from hex_DecodeString_length [OF b] v have "length b = 20"
    by (simp add: spec_valid_hex_identifier_def)
  with b show "\<exists>b. hex_DecodeString h = Inr b \<and> length b = 20" by blast
next
  assume d: "hex_DecodeString r = Inl he"
  then have "\<not> (\<exists>b. hex_DecodeString r = Inr b)" by simp
  then show "\<not> (even (length r) \<and> list_all (\<lambda>c. fromHexChar c \<noteq> None) r)"
    using hex_DecodeString_Inr_iff [of r] by blast
  assume "References_Lookup repo r = Inl e'"
  with d show "getCommit repo r desc =
      Inl (''getCommit: failed to lookup reference '' @ desc @ ''='' @ r)"
    by (simp add: getCommit_def)
qed

lemma ex_start_hex:
  "hex_DecodeString ''f5a78eba828b905cfb559a427e1afcceb5d337ca'' = Inr ex_start"
  unfolding ex_start_def by code_simp

lemma ex_start_hex_ff:
  "hex_DecodeString ''f5a78eba828b905cfb559a427e1afcceb5d337caff'' = Inr (ex_start @ [CHR 0xFF])"
  unfolding ex_start_def by code_simp

lemma ex_blob_hex:
  "hex_DecodeString ''3333333333333333333333333333333333333333'' = Inr ex_blob"
  unfolding ex_blob_def by code_simp

lemma ex_not_hex: "hex_DecodeString ''refs/heads/topic'' = Inl (InvalidByteError CHR ''r'')"
  by (simp add: fromHexChar_def)

text \<open>
  C9, as the specification has it, fails. An endpoint of forty-two hexadecimal digits is
  no valid identifier of the fixed length and names no reference; the claim has it
  treated as a reference name and refused, and \<^verbatim>\<open>getCommit\<close> returns the commit
  whose identifier is its first twenty bytes.
\<close>

theorem getCommit_long_hex_counterexample:
  "\<not> spec_valid_hex_identifier ''f5a78eba828b905cfb559a427e1afcceb5d337caff''
   \<and> References_Lookup ex_repo ''f5a78eba828b905cfb559a427e1afcceb5d337caff''
       = Inl ''reference not found''
   \<and> getCommit ex_repo ''f5a78eba828b905cfb559a427e1afcceb5d337caff'' ''start-commit''
       = Inr (ex_commit ex_start ''carol'')"
proof -
  have 1: "\<not> spec_valid_hex_identifier ''f5a78eba828b905cfb559a427e1afcceb5d337caff''"
    by (simp add: spec_valid_hex_identifier_def)
  have 2: "References_Lookup ex_repo ''f5a78eba828b905cfb559a427e1afcceb5d337caff''
       = Inl ''reference not found''"
    by (simp add: ex_repo_def ex_refs_def)
  have n: "NewOidFromBytes ex_repo (ex_start @ [CHR 0xFF]) = Inr (Some ex_start)"
    by (simp add: ex_repo_def ex_start_def)
  have l: "LookupCommit ex_repo ex_start = Inr (ex_commit ex_start ''carol'')"
    using ex_distinct by (simp add: ex_repo_def ex_lookup_def)
  have 3: "getCommit ex_repo ''f5a78eba828b905cfb559a427e1afcceb5d337caff'' ''start-commit''
       = Inr (ex_commit ex_start ''carol'')"
    unfolding getCommit_def by (simp only: ex_start_hex_ff n l sum.case option.case)
  from 1 2 3 show ?thesis by blast
qed


theorem getCommit_hex_or_reference_witness:
  "hex_DecodeString ''f5a78eba828b905cfb559a427e1afcceb5d337ca'' = Inr ex_start
   \<and> NewOidFromBytes ex_repo ex_start = Inr (Some ex_start)
   \<and> LookupCommit ex_repo ex_start = Inr (ex_commit ex_start ''carol'')
   \<and> getCommit ex_repo ''f5a78eba828b905cfb559a427e1afcceb5d337ca'' ''start-commit''
       = Inr (ex_commit ex_start ''carol'')
   \<and> getCommit (ex_repo\<lparr>References_Lookup := \<lambda>name. Inl ''no references''\<rparr>)
         ''f5a78eba828b905cfb559a427e1afcceb5d337ca'' ''start-commit''
       = getCommit ex_repo ''f5a78eba828b905cfb559a427e1afcceb5d337ca'' ''start-commit''
   \<and> hex_DecodeString ''3333333333333333333333333333333333333333'' = Inr ex_blob
   \<and> NewOidFromBytes ex_repo ex_blob = Inr (Some ex_blob)
   \<and> LookupCommit ex_repo ex_blob = Inl ''object not found''
   \<and> getCommit ex_repo ''3333333333333333333333333333333333333333'' ''start-commit''
       = Inl ''getCommit: failed to get commit from start-commit=3333333333333333333333333333333333333333''
   \<and> spec_valid_hex_identifier ''f5a78eba828b905cfb559a427e1afcceb5d337ca''
   \<and> (\<exists>b. hex_DecodeString ''f5a78eba828b905cfb559a427e1afcceb5d337ca'' = Inr b
            \<and> length b = 20)
   \<and> hex_DecodeString ''refs/heads/topic'' = Inl (InvalidByteError CHR ''r'')
   \<and> References_Lookup ex_repo ''refs/heads/topic'' = Inl ''reference not found''
   \<and> getCommit ex_repo ''refs/heads/topic'' ''start-commit''
       = Inl ''getCommit: failed to lookup reference start-commit=refs/heads/topic''"
proof -
  have n1: "NewOidFromBytes ex_repo ex_start = Inr (Some ex_start)"
    by (simp add: ex_repo_def ex_start_def)
  have l1: "LookupCommit ex_repo ex_start = Inr (ex_commit ex_start ''carol'')"
    using ex_distinct by (simp add: ex_repo_def ex_lookup_def)
  have n2: "NewOidFromBytes ex_repo ex_blob = Inr (Some ex_blob)"
    by (simp add: ex_repo_def ex_blob_def)
  have l2: "LookupCommit ex_repo ex_blob = Inl ''object not found''"
    by (simp add: ex_repo_def ex_lookup_def ex_blob_def ex_end_def ex_Y_def ex_X_def
        ex_start_def)
  have v: "spec_valid_hex_identifier ''f5a78eba828b905cfb559a427e1afcceb5d337ca''"
    by (simp add: spec_valid_hex_identifier_def fromHexChar_def)
  have r: "References_Lookup ex_repo ''refs/heads/topic'' = Inl ''reference not found''"
    by (simp add: ex_repo_def ex_refs_def)
  note t = getCommit_hex_or_reference [where s = "''f5a78eba828b905cfb559a427e1afcceb5d337ca''" and b = ex_start
      and repo = ex_repo and refs = "\<lambda>name. Inl ''no references''"
      and desc = "''start-commit''" and i = ex_start and c = "ex_commit ex_start ''carol''"
      and s' = "''3333333333333333333333333333333333333333''" and b' = ex_blob
      and i' = ex_blob and e = "''object not found''"
      and h = "''f5a78eba828b905cfb559a427e1afcceb5d337ca''"
      and r = "''refs/heads/topic''" and he = "InvalidByteError CHR ''r''"
      and e' = "''reference not found''"]
  from t ex_start_hex n1 l1 ex_blob_hex n2 l2 v ex_not_hex r show ?thesis
    by simp
qed

section \<open>The author list\<close>

lemma write_authors_concat:
  "write_authors names sb = sb @ concat (map (\<lambda>n. n @ '','') names)"
  by (induction names arbitrary: sb) simp_all

lemma collect_authors_set:
  assumes "list_all2 (\<lambda>i k. LookupCommit repo i = Inr k) chain commits"
  shows "\<exists>ks. collect_authors repo chain acc = Inr ks
           \<and> set ks = set acc \<union> Author_Name ` set commits
           \<and> (distinct acc \<longrightarrow> distinct ks)"
  using assms
proof (induction chain commits arbitrary: acc rule: list_all2_induct)
  case Nil
  then show ?case by simp
next
  case (Cons i chain k commits)
  obtain ks where ks: "collect_authors repo chain (List.insert (Author_Name k) acc) = Inr ks"
    and s: "set ks = set (List.insert (Author_Name k) acc) \<union> Author_Name ` set commits"
    and d: "distinct (List.insert (Author_Name k) acc) \<longrightarrow> distinct ks"
    using Cons.IH [of "List.insert (Author_Name k) acc"] by blast
  have "collect_authors repo (i # chain) acc = Inr ks"
    using Cons.hyps(1) ks by simp
  moreover have "set ks = set acc \<union> Author_Name ` set (k # commits)"
    using s by auto
  moreover have "distinct acc \<longrightarrow> distinct ks"
    using d by simp
  ultimately show ?case by blast
qed

text \<open>
  C10, as the program has it. When every commit of the chain is found, the author list
  that \<^verbatim>\<open>getAuthorListString\<close> returns is made of the author names of the chain, each
  of them once, in the order in which the map is visited, and each of them followed by
  a comma: a list that is not empty ends with a comma.
\<close>

theorem authors_distinct_each_followed_by_comma:
  assumes "list_all2 (\<lambda>i k. LookupCommit repo i = Inr k) chain commits"
    and "\<And>ks. mset (visit ks) = mset ks"
  shows "\<exists>names. getAuthorListString repo visit chain =
                   Inr (concat (map (\<lambda>n. n @ '','') names))
           \<and> distinct names \<and> set names = Author_Name ` set commits"
proof -
  obtain ks where ks: "collect_authors repo chain [] = Inr ks"
    and s: "set ks = Author_Name ` set commits" and d: "distinct ks"
    using collect_authors_set [OF assms(1), of "[]"] by auto
  have run: "getAuthorListString repo visit chain =
      Inr (concat (map (\<lambda>n. n @ '','') (visit ks)))"
    by (simp add: getAuthorListString_def ks write_authors_concat)
  have m: "mset (visit ks) = mset ks"
    by (rule assms(2))
  have s': "set (visit ks) = set ks"
    using m by (rule mset_eq_setD)
  have "distinct (visit ks) = distinct ks"
    using m by (rule mset_eq_imp_distinct_iff)
  with d have d': "distinct (visit ks)" by (simp only:)
  from s s' have s'': "set (visit ks) = Author_Name ` set commits" by (simp only:)
  show ?thesis
  proof (intro exI conjI)
    show "getAuthorListString repo visit chain =
      Inr (concat (map (\<lambda>n. n @ '','') (visit ks)))" by (rule run)
    show "distinct (visit ks)" by (rule d')
    show "set (visit ks) = Author_Name ` set commits" by (rule s'')
  qed
qed

lemma ex_lookup_simps:
  "LookupCommit ex_repo ex_end = Inr (ex_commit ex_end ''alice'')"
  "LookupCommit ex_repo ex_Y = Inr (ex_commit ex_Y ''bob'')"
  "LookupCommit ex_repo ex_X = Inr (ex_commit ex_X ''alice'')"
  "LookupCommit ex_repo ex_start = Inr (ex_commit ex_start ''carol'')"
  using ex_distinct ex_distinct [symmetric]
  by (simp_all add: ex_repo_def ex_lookup_def)

lemma ex_lookups3:
  "list_all2 (\<lambda>i k. LookupCommit ex_repo i = Inr k) [ex_end, ex_Y, ex_X]
     [ex_commit ex_end ''alice'', ex_commit ex_Y ''bob'', ex_commit ex_X ''alice'']"
  by (simp add: ex_lookup_simps)

lemma ex_authors:
  "collect_authors ex_repo [ex_end, ex_Y, ex_X] [] = Inr [''bob'', ''alice'']"
  by (simp add: ex_lookup_simps ex_commit_def)

text \<open>
  C10, as the specification has it, fails. The chain of \<open>end\<close>, \<open>Y\<close> and \<open>X\<close> has the
  authors alice, bob and alice. Joined with commas, the two names are \<^verbatim>\<open>alice,bob\<close> or
  \<^verbatim>\<open>bob,alice\<close>; \<^verbatim>\<open>getAuthorListString\<close> returns \<^verbatim>\<open>bob,alice,\<close> when the map is visited
  in one order and \<^verbatim>\<open>alice,bob,\<close> when it is visited in the other.
\<close>

theorem authors_trailing_comma_counterexample:
  "getAuthorListString ex_repo (\<lambda>ks. ks) [ex_end, ex_Y, ex_X] = Inr ''bob,alice,''
   \<and> getAuthorListString ex_repo rev [ex_end, ex_Y, ex_X] = Inr ''alice,bob,''
   \<and> spec_comma_joined [''bob'', ''alice''] = ''bob,alice''
   \<and> spec_comma_joined [''alice'', ''bob''] = ''alice,bob''
   \<and> ''bob,alice,'' \<noteq> ''bob,alice'' \<and> ''bob,alice,'' \<noteq> ''alice,bob''
   \<and> ''alice,bob,'' \<noteq> ''bob,alice'' \<and> ''alice,bob,'' \<noteq> ''alice,bob''"
proof -
  have 1: "getAuthorListString ex_repo (\<lambda>ks. ks) [ex_end, ex_Y, ex_X]
      = Inr (write_authors [''bob'', ''alice''] [])"
    by (simp only: getAuthorListString_def ex_authors sum.case)
  have 2: "getAuthorListString ex_repo rev [ex_end, ex_Y, ex_X]
      = Inr (write_authors (rev [''bob'', ''alice'']) [])"
    by (simp only: getAuthorListString_def ex_authors sum.case)
  have 3: "write_authors [''bob'', ''alice''] [] = ''bob,alice,''"
    by simp
  have 4: "write_authors (rev [''bob'', ''alice'']) [] = ''alice,bob,''"
    by simp
  have 5: "spec_comma_joined [''bob'', ''alice''] = ''bob,alice''"
    by simp
  have 6: "spec_comma_joined [''alice'', ''bob''] = ''alice,bob''"
    by simp
  have 7: "''bob,alice,'' \<noteq> ''bob,alice''" "''bob,alice,'' \<noteq> ''alice,bob''"
    "''alice,bob,'' \<noteq> ''bob,alice''" "''alice,bob,'' \<noteq> ''alice,bob''"
    by simp_all
  have "getAuthorListString ex_repo (\<lambda>ks. ks) [ex_end, ex_Y, ex_X] = Inr ''bob,alice,''"
    using 1 3 by (simp only:)
  moreover have "getAuthorListString ex_repo rev [ex_end, ex_Y, ex_X] = Inr ''alice,bob,''"
    using 2 4 by (simp only:)
  ultimately show ?thesis using 5 6 7 by (intro conjI)
qed

theorem authors_distinct_each_followed_by_comma_witness:
  "list_all2 (\<lambda>i k. LookupCommit ex_repo i = Inr k) [ex_end, ex_Y, ex_X]
     [ex_commit ex_end ''alice'', ex_commit ex_Y ''bob'', ex_commit ex_X ''alice'']
   \<and> (\<exists>names. getAuthorListString ex_repo rev [ex_end, ex_Y, ex_X] =
                 Inr (concat (map (\<lambda>n. n @ '','') names))
         \<and> distinct names
         \<and> set names = Author_Name `
             set [ex_commit ex_end ''alice'', ex_commit ex_Y ''bob'', ex_commit ex_X ''alice''])"
proof -
  have perm: "mset (rev ks) = mset ks" for ks :: "string list"
    by simp
  from authors_distinct_each_followed_by_comma [OF ex_lookups3 perm] ex_lookups3 show ?thesis
    by (intro conjI)
qed

section \<open>Symbolic references\<close>






end
